theory Spec2Isabelle
  imports Complex_Main "HOL-Library.Word" "HOL-Library.Multiset"
begin

unbundle bit_operations_syntax

section \<open>The Quickset pan-tilt packet codec (\<open>quickset_pan_tilt/protocol.py\<close>)\<close>

text \<open>
  The elements of a Python \<open>bytes\<close> or \<open>bytearray\<close> object are integers in
  \<open>range(256)\<close>: they are modelled as 8-bit words. Python's own integers are unbounded
  and are modelled as \<open>int\<close>.
\<close>

type_synonym byte = "8 word"

text \<open>
  The exceptions the module can raise. \<open>NotImplementedError\<close> carries its message;
  \<open>StructError\<close> is \<open>struct.error\<close>.
\<close>

datatype error =
    NotImplementedError string
  | OverflowError
  | StructError
  | TypeError
  | AttributeError
  | ValueError
  | KeyError

subsection \<open>Control characters\<close>

record ControlCharacters =
  STX :: byte
  ETX :: byte
  ACK :: byte
  NACK :: byte
  ESC :: byte

definition CONTROL_CHARS :: ControlCharacters where
  "CONTROL_CHARS = \<lparr>STX = 0x02, ETX = 0x03, ACK = 0x06, NACK = 0x15, ESC = 0x1b\<rparr>"

text \<open>
  \<open>CONTROL_CHARS\<close> is a named tuple; \<open>byte in CONTROL_CHARS\<close> searches its
  five fields in order.
\<close>

definition tuple_items :: "ControlCharacters \<Rightarrow> byte list" where
  "tuple_items cc = [STX cc, ETX cc, ACK cc, NACK cc, ESC cc]"

subsection \<open>Integers on the wire\<close>

text \<open>
  \<open>integer.to_bytes(length=2, byteorder='little', signed=True)\<close> raises
  \<open>OverflowError\<close> outside the 16-bit two's-complement range; inside it the low byte
  comes first.
\<close>

definition int_to_bytes :: "int \<Rightarrow> error + byte list" where
  "int_to_bytes integer =
     (if - 32768 \<le> integer \<and> integer \<le> 32767
      then Inr [word_of_int (integer mod 256), word_of_int (integer div 256 mod 256)]
      else Inl OverflowError)"

text \<open>
  \<open>struct.unpack('<h', two_bytes)[0]\<close>: \<open>struct.error\<close> unless exactly two bytes
  are given, otherwise the little-endian value read as two's complement.
\<close>

definition bytes_to_int :: "byte list \<Rightarrow> error + int" where
  "bytes_to_int two_bytes =
     (case two_bytes of
        [lo, hi] \<Rightarrow>
          (let u = uint lo + 256 * uint hi
           in Inr (if u < 32768 then u else u - 65536))
      | _ \<Rightarrow> Inl StructError)"

text \<open>
  \<open>n.to_bytes()\<close> with the default arguments (length 1, unsigned): used for the
  command numbers and for the timeout value.
\<close>

definition to_bytes :: "int \<Rightarrow> error + byte list" where
  "to_bytes n = (if 0 \<le> n \<and> n < 256 then Inr [word_of_int n] else Inl OverflowError)"

subsection \<open>Checksum\<close>

text \<open>
  The loop \<open>for byte in ints: lrc ^= byte\<close> starting from \<open>lrc = 0\<close>. The result is
  a one-element \<open>bytearray\<close>. The exclusive or of values below 256 is below 256, so the
  final \<open>to_bytes(length=1, signed=False)\<close> cannot raise and the accumulator is a byte.
\<close>

definition compute_lrc :: "byte list \<Rightarrow> byte list" where
  "compute_lrc byte_array = [fold (\<lambda>byte lrc. lrc XOR byte) byte_array 0]"

subsection \<open>Escaping\<close>

definition insert_escape_sequence :: "byte \<Rightarrow> byte list" where
  "insert_escape_sequence byte = [ESC CONTROL_CHARS, byte OR 0x80]"

text \<open>The loop of \<open>escape_control_chars\<close>: the accumulator is \<open>new_packet\<close>.\<close>

definition escape_step :: "byte \<Rightarrow> byte list \<Rightarrow> byte list" where
  "escape_step byte new_packet =
     (if byte \<in> set (tuple_items CONTROL_CHARS)
      then new_packet @ insert_escape_sequence byte
      else new_packet @ [byte])"

definition escape_control_chars :: "byte list \<Rightarrow> byte list" where
  "escape_control_chars packet = fold escape_step packet []"

text \<open>
  The local variables of \<open>remove_escape_sequences\<close>. The assignment in the inner branch
  is written to the name \<open>found_sec\<close>, a variable of its own that is unbound until
  then; \<open>found_esc\<close> is assigned \<open>False\<close> once, before the loop, and \<open>True\<close> at
  each ESC byte.
\<close>

record unescape_locals =
  new_packet :: "byte list"
  found_esc :: bool
  found_sec :: "bool option"

definition unescape_step :: "byte \<Rightarrow> unescape_locals \<Rightarrow> unescape_locals" where
  "unescape_step byte s =
     (if byte = ESC CONTROL_CHARS
      then s\<lparr>found_esc := True\<rparr>
      else if found_esc s
        then s\<lparr>found_sec := Some False, new_packet := new_packet s @ [byte AND 0x7f]\<rparr>
        else s\<lparr>new_packet := new_packet s @ [byte]\<rparr>)"

definition remove_escape_sequences :: "byte list \<Rightarrow> byte list" where
  "remove_escape_sequences packet =
     new_packet (fold unescape_step packet
       \<lparr>new_packet = [], found_esc = False, found_sec = None\<rparr>)"

subsection \<open>Python values passed to the assemblers\<close>

text \<open>
  The pan and tilt arguments are annotated \<open>float | None\<close> and default to integers, the
  timeout is annotated \<open>int\<close>. A float is an IEEE binary64 value: \<open>Finite m e\<close>
  stands for \<open>m * 2 ^ e\<close> (the sign of a zero is not kept: no operation of the module
  observes it), \<open>Infinity neg\<close> for the infinity of that sign.
\<close>

datatype pyfloat = Finite int int | Infinity bool | NaN

datatype pyval = PyNone | PyInt int | PyFloat pyfloat

text \<open>The number of binary digits of a natural number.\<close>

fun bit_length :: "nat \<Rightarrow> nat" where
  "bit_length n = (if n = 0 then 0 else Suc (bit_length (n div 2)))"

declare bit_length.simps [simp del]

text \<open>
  Rounding the exact value \<open>m * 2 ^ e\<close> to binary64, to nearest, ties to even: the
  significand keeps 53 bits, the exponent of its last bit is at least \<open>- 1074\<close>, and a
  result of magnitude \<open>2 ^ 1024\<close> or more is an infinity.
\<close>

definition round_binary64 :: "int \<Rightarrow> int \<Rightarrow> pyfloat" where
  "round_binary64 m e =
     (let a = nat \<bar>m\<bar>;
          shift = nat (max (int (bit_length a) - 53) (- 1074 - e));
          q = a div 2 ^ shift;
          r = a mod 2 ^ shift;
          q' = (if 2 * r > 2 ^ shift \<or> (2 * r = 2 ^ shift \<and> odd q) then q + 1 else q);
          e' = e + int shift
      in if int (bit_length q') + e' > 1024 then Infinity (m < 0)
         else Finite (sgn m * int q') e')"

text \<open>Float multiplication \<open>x * y\<close>.\<close>

fun float_mul :: "pyfloat \<Rightarrow> pyfloat \<Rightarrow> pyfloat" where
  "float_mul NaN _ = NaN"
| "float_mul _ NaN = NaN"
| "float_mul (Finite m1 e1) (Finite m2 e2) = round_binary64 (m1 * m2) (e1 + e2)"
| "float_mul (Finite m e) (Infinity neg) =
     (if m = 0 then NaN else Infinity (neg \<noteq> (m < 0)))"
| "float_mul (Infinity neg) (Finite m e) =
     (if m = 0 then NaN else Infinity (neg \<noteq> (m < 0)))"
| "float_mul (Infinity neg1) (Infinity neg2) = Infinity (neg1 \<noteq> neg2)"

text \<open>
  \<open>int(x)\<close> on a float truncates towards zero; it raises \<open>OverflowError\<close> on an
  infinity and \<open>ValueError\<close> on a NaN.
\<close>

fun float_to_int :: "pyfloat \<Rightarrow> error + int" where
  "float_to_int (Finite m e) =
     Inr (if 0 \<le> e then m * 2 ^ nat e else sgn m * (\<bar>m\<bar> div 2 ^ nat (- e)))"
| "float_to_int (Infinity neg) = Inl OverflowError"
| "float_to_int NaN = Inl ValueError"

text \<open>
  The expression \<open>int(x * 10)\<close> of the two move assemblers. An integer stays an
  integer; a float is multiplied by the float \<open>10.0\<close>; \<open>None * 10\<close> raises
  \<open>TypeError\<close>.
\<close>

fun int_times_10 :: "pyval \<Rightarrow> error + int" where
  "int_times_10 (PyInt n) = Inr (n * 10)"
| "int_times_10 (PyFloat x) = float_to_int (float_mul x (Finite 10 0))"
| "int_times_10 PyNone = Inl TypeError"

subsection \<open>Command assemblers\<close>

text \<open>
  An assembler receives the positional arguments \<open>*data\<close> and returns data bytes or
  \<open>None\<close>. A call may issue warnings (\<open>warnings.warn\<close>, which does not interrupt the
  call) and may raise: its outcome is the list of warnings issued together with the
  exception raised or the value returned. A call with the wrong number of arguments
  raises \<open>TypeError\<close>.
\<close>

type_synonym 'a outcome = "string list \<times> (error + 'a)"

text \<open>
  \<open>_assemble_get_status\<close> is abstract in the base class; both subclasses override it
  with a body of \<open>pass\<close>, which returns \<open>None\<close>.
\<close>

definition assemble_get_status :: "pyval list \<Rightarrow> byte list option outcome" where
  "assemble_get_status data = (if data = [] then ([], Inr None) else ([], Inl TypeError))"

text \<open>The entry of \<open>home\<close>: \<open>lambda: None\<close>.\<close>

definition assemble_home :: "pyval list \<Rightarrow> byte list option outcome" where
  "assemble_home data = (if data = [] then ([], Inr None) else ([], Inl TypeError))"

definition assemble_fault_reset :: "pyval list \<Rightarrow> byte list option outcome" where
  "assemble_fault_reset data =
     (if data = []
      then (let reset_cmd = [0x01]; pan_jog_cmd = [0]; tilt_jog_cmd = [0];
                zoom_jog_cmd = [0]; focus_jog_cmd = [0]
            in ([], Inr (Some (reset_cmd @ pan_jog_cmd @ tilt_jog_cmd
                                 @ zoom_jog_cmd @ focus_jog_cmd))))
      else ([], Inl TypeError))"

definition assemble_get_comm_timeout :: "pyval list \<Rightarrow> byte list option outcome" where
  "assemble_get_comm_timeout data =
     (if data = [] then ([], Inr (Some [0x80])) else ([], Inl TypeError))"

definition timeout_warning :: string where
  "timeout_warning =
     ''Timeout value must be between 0 and 120 seconds.'' @ '' Timeout will not be set.''"

text \<open>
  The comparison of a float with 120 or 0: an infinity compares by its sign, a NaN
  compares false with everything.
\<close>

fun float_out_of_range :: "pyfloat \<Rightarrow> bool" where
  "float_out_of_range (Finite m e) =
     (m < 0 \<or> (if 0 \<le> e then m * 2 ^ nat e > 120 else m > 120 * 2 ^ nat (- e)))"
| "float_out_of_range (Infinity neg) = True"
| "float_out_of_range NaN = False"

text \<open>
  \<open>_assemble_set_comm_timeout\<close>: outside 0..120 it warns and returns \<open>None\<close>. A float
  has no \<open>to_bytes\<close> method; \<open>None\<close> cannot be compared with a number.
\<close>

fun assemble_set_comm_timeout :: "pyval list \<Rightarrow> byte list option outcome" where
  "assemble_set_comm_timeout [PyInt timeout] =
     (if timeout > 120 \<or> timeout < 0 then ([timeout_warning], Inr None)
      else (case to_bytes timeout of
              Inl err \<Rightarrow> ([], Inl err)
            | Inr bs \<Rightarrow> ([], Inr (Some bs))))"
| "assemble_set_comm_timeout [PyFloat timeout] =
     (if float_out_of_range timeout then ([timeout_warning], Inr None)
      else ([], Inl AttributeError))"
| "assemble_set_comm_timeout _ = ([], Inl TypeError)"

text \<open>
  The parameters \<open>pan\<close> and \<open>tilt\<close> of the two move assemblers both default to
  \<open>None\<close>.
\<close>

fun bind_pan_tilt :: "pyval list \<Rightarrow> error + pyval \<times> pyval" where
  "bind_pan_tilt [] = Inr (PyNone, PyNone)"
| "bind_pan_tilt [pan] = Inr (pan, PyNone)"
| "bind_pan_tilt [pan, tilt] = Inr (pan, tilt)"
| "bind_pan_tilt _ = Inl TypeError"

text \<open>
  The common body of \<open>_assemble_move_to_entered\<close> and \<open>_assemble_move_to_delta\<close>, which
  differ only in the value that replaces \<open>None\<close>: both axes are converted first, then
  both are encoded, pan before tilt.
\<close>

definition encode_pan_tilt :: "pyval \<Rightarrow> pyval \<Rightarrow> pyval \<Rightarrow> error + byte list" where
  "encode_pan_tilt absent pan tilt =
     (let pan = (if pan = PyNone then absent else pan);
          tilt = (if tilt = PyNone then absent else tilt)
      in case int_times_10 pan of Inl err \<Rightarrow> Inl err | Inr pan \<Rightarrow>
         (case int_times_10 tilt of Inl err \<Rightarrow> Inl err | Inr tilt \<Rightarrow>
         (case int_to_bytes pan of Inl err \<Rightarrow> Inl err | Inr pan_bytes \<Rightarrow>
         (case int_to_bytes tilt of Inl err \<Rightarrow> Inl err | Inr tilt_bytes \<Rightarrow>
            Inr (pan_bytes @ tilt_bytes)))))"

text \<open>The float literal \<open>999.9\<close>, which is \<open>8795213412905779 * 2 ^ - 43\<close>.\<close>

definition float_999_9 :: pyfloat where
  "float_999_9 = Finite 8795213412905779 (- 43)"

definition assemble_move_to_entered :: "pyval list \<Rightarrow> byte list option outcome" where
  "assemble_move_to_entered data =
     (case bind_pan_tilt data of
        Inl err \<Rightarrow> ([], Inl err)
      | Inr (pan, tilt) \<Rightarrow>
          (case encode_pan_tilt (PyFloat float_999_9) pan tilt of
             Inl err \<Rightarrow> ([], Inl err)
           | Inr data_bytes \<Rightarrow> ([], Inr (Some data_bytes))))"

definition assemble_move_to_delta :: "pyval list \<Rightarrow> byte list option outcome" where
  "assemble_move_to_delta data =
     (case bind_pan_tilt data of
        Inl err \<Rightarrow> ([], Inl err)
      | Inr (pan, tilt) \<Rightarrow>
          (case encode_pan_tilt (PyInt 0) pan tilt of
             Inl err \<Rightarrow> ([], Inl err)
           | Inr data_bytes \<Rightarrow> ([], Inr (Some data_bytes))))"

subsection \<open>The command table\<close>

text \<open>
  The dictionary \<open>_COMMANDS\<close> built by \<open>__init__\<close>, in the order of the source. The
  \<open>parse\<close> entries all return \<open>None\<close> and take no part in assembling a packet; they
  are left out.
\<close>

record command_entry =
  assemble :: "pyval list \<Rightarrow> byte list option outcome"
  number :: int

definition COMMANDS :: "(string \<times> command_entry) list" where
  "COMMANDS =
     [(''get_status'', \<lparr>assemble = assemble_get_status, number = 0x31\<rparr>),
      (''move_absolute'', \<lparr>assemble = assemble_move_to_entered, number = 0x33\<rparr>),
      (''move_delta'', \<lparr>assemble = assemble_move_to_delta, number = 0x34\<rparr>),
      (''home'', \<lparr>assemble = assemble_home, number = 0x35\<rparr>),
      (''fault_reset'', \<lparr>assemble = assemble_fault_reset, number = 0x31\<rparr>),
      (''get_comm_timeout'', \<lparr>assemble = assemble_get_comm_timeout, number = 0x96\<rparr>),
      (''set_comm_timeout'', \<lparr>assemble = assemble_set_comm_timeout, number = 0x96\<rparr>)]"

definition COMMAND_NAMES :: "string set" where
  "COMMAND_NAMES = set (map fst COMMANDS)"

definition not_implemented_message :: "string \<Rightarrow> string" where
  "not_implemented_message cmd_name =
     ''Command '' @ [CHR 0x22] @ cmd_name @ [CHR 0x22] @ '' is not implemented.''"

text \<open>
  \<open>_assemble_cmd_data_lrc\<close>: the membership test comes first, then the command number,
  then the assembler of the command, then the checksum over command and data bytes.
\<close>

definition assemble_cmd_data_lrc :: "string \<Rightarrow> pyval list \<Rightarrow> byte list outcome" where
  "assemble_cmd_data_lrc cmd_name data =
     (if cmd_name \<notin> COMMAND_NAMES
      then ([], Inl (NotImplementedError (not_implemented_message cmd_name)))
      else
        (case map_of COMMANDS cmd_name of
           None \<Rightarrow> ([], Inl KeyError)
         | Some entry \<Rightarrow>
             (case to_bytes (number entry) of
                Inl err \<Rightarrow> ([], Inl err)
              | Inr cmd_bytes \<Rightarrow>
                  (case assemble entry data of
                     (warned, Inl err) \<Rightarrow> (warned, Inl err)
                   | (warned, Inr data_bytes) \<Rightarrow>
                       (let packet = (case data_bytes of
                                        Some bs \<Rightarrow> cmd_bytes @ bs
                                      | None \<Rightarrow> cmd_bytes);
                            lrc = compute_lrc packet
                        in (warned, Inr (packet @ lrc)))))))"

subsection \<open>The two protocol variants\<close>

datatype protocol = PTCR20 (identity: int) | PTHR90

text \<open>
  \<open>packet.insert(0, value)\<close> on a \<open>bytearray\<close> raises \<open>ValueError\<close> unless the
  value is in \<open>range(256)\<close>.
\<close>

definition insert_front :: "int \<Rightarrow> byte list \<Rightarrow> error + byte list" where
  "insert_front v packet =
     (if 0 \<le> v \<and> v < 256 then Inr (word_of_int v # packet) else Inl ValueError)"

text \<open>
  The packet of \<open>assemble_packet\<close> at the call of \<open>escape_control_chars\<close>: for the
  PTCR20 the identity has been inserted in front, for the PTHR90 nothing has been.
\<close>

fun pre_escape_body :: "protocol \<Rightarrow> string \<Rightarrow> pyval list \<Rightarrow> byte list outcome" where
  "pre_escape_body (PTCR20 ident) cmd_name data =
     (case assemble_cmd_data_lrc cmd_name data of
        (warned, Inl err) \<Rightarrow> (warned, Inl err)
      | (warned, Inr packet) \<Rightarrow>
          (case insert_front ident packet of
             Inl err \<Rightarrow> (warned, Inl err)
           | Inr packet \<Rightarrow> (warned, Inr packet)))"
| "pre_escape_body PTHR90 cmd_name data = assemble_cmd_data_lrc cmd_name data"

text \<open>
  \<open>assemble_packet\<close> of either class: the rest of both methods is the same, escaping
  and then the two delimiters.
\<close>

definition assemble_packet :: "protocol \<Rightarrow> string \<Rightarrow> pyval list \<Rightarrow> byte list outcome" where
  "assemble_packet proto cmd_name data =
     (case pre_escape_body proto cmd_name data of
        (warned, Inl err) \<Rightarrow> (warned, Inl err)
      | (warned, Inr packet) \<Rightarrow>
          (let packet = escape_control_chars packet
           in (warned, Inr (STX CONTROL_CHARS # packet @ [ETX CONTROL_CHARS]))))"

subsection \<open>The exclusive or of a byte sequence\<close>

text \<open>
  The checksum as the specification words it, next to the loop of the source: the
  exclusive or of every byte of the sequence, 0 for the empty one.
\<close>

primrec xor_fold :: "byte list \<Rightarrow> byte" where
  "xor_fold [] = 0"
| "xor_fold (b # bs) = b XOR xor_fold bs"

subsection \<open>The value of a float and truncation\<close>

text \<open>
  The real number that \<open>Finite m e\<close> stands for, and truncation of a real number towards
  zero. They are used to state what \<open>int(x * 10)\<close> computes.
\<close>

definition dyadic :: "int \<Rightarrow> int \<Rightarrow> real" where
  "dyadic m e = (if 0 \<le> e then of_int m * 2 ^ nat e else of_int m / 2 ^ nat (- e))"

definition truncate :: "real \<Rightarrow> int" where
  "truncate x = (if 0 \<le> x then \<lfloor>x\<rfloor> else \<lceil>x\<rceil>)"

section \<open>Properties of the codec\<close>

subsection \<open>Auxiliary facts\<close>

lemmas codec_defs =
  escape_control_chars_def escape_step_def insert_escape_sequence_def
  remove_escape_sequences_def unescape_step_def CONTROL_CHARS_def tuple_items_def

lemmas packet_defs =
  assemble_packet_def assemble_cmd_data_lrc_def COMMANDS_def COMMAND_NAMES_def
  to_bytes_def compute_lrc_def

lemma uint_byte_mod: "uint (word_of_int (k mod 256) :: byte) = k mod 256"
  by (simp add: uint_word_of_int take_bit_eq_mod)

lemma two_bytes_value: "(v::int) mod 256 + 256 * (v div 256 mod 256) = v mod 65536"
  using zmod_zmult2_eq[of 256 v 256] by simp

lemma negative_mod_65536:
  "- 32768 \<le> v \<Longrightarrow> \<not> 0 \<le> v \<Longrightarrow> (v::int) mod 65536 = v + 65536"
  using mod_add_self2[of v 65536] mod_pos_pos_trivial[of "v + 65536" 65536] by simp

lemma to_bytes_Inr: "to_bytes n = Inr bs \<Longrightarrow> bs = [word_of_int n]"
  by (simp add: to_bytes_def split: if_splits)

lemma cmd_data_lrc_shape:
  assumes "assemble_cmd_data_lrc cmd_name data = (warned, Inr packet)"
  shows "\<exists>entry data_bytes. map_of COMMANDS cmd_name = Some entry \<and>
           packet = (word_of_int (number entry) # data_bytes)
                      @ compute_lrc (word_of_int (number entry) # data_bytes)"
proof -
  from assms obtain entry where e: "map_of COMMANDS cmd_name = Some entry"
    by (auto simp: assemble_cmd_data_lrc_def split: if_splits option.splits)
  from assms e obtain cmd_bytes where c: "to_bytes (number entry) = Inr cmd_bytes"
    by (auto simp: assemble_cmd_data_lrc_def split: if_splits sum.splits)
  then have cb: "cmd_bytes = [word_of_int (number entry)]"
    by (rule to_bytes_Inr)
  from assms e c obtain r where r: "assemble entry data = (warned, Inr r)"
    by (auto simp: assemble_cmd_data_lrc_def Let_def
        split: if_splits sum.splits prod.splits)
  show ?thesis
  proof (cases r)
    case None
    with assms e c r cb
    have "packet = [word_of_int (number entry)] @ compute_lrc [word_of_int (number entry)]"
      by (auto simp: assemble_cmd_data_lrc_def Let_def split: if_splits)
    with e show ?thesis by blast
  next
    case (Some bs)
    with assms e c r cb
    have "packet = (word_of_int (number entry) # bs)
                     @ compute_lrc (word_of_int (number entry) # bs)"
      by (auto simp: assemble_cmd_data_lrc_def Let_def split: if_splits)
    with e show ?thesis by blast
  qed
qed

lemma home_cmd_data_lrc: "assemble_cmd_data_lrc ''home'' [] = ([], Inr [0x35, 0x35])"
  by (simp add: packet_defs assemble_home_def)

subsection \<open>Escaping and unescaping\<close>

text \<open>
  C1. Unescaping the escaped form of a byte sequence should give the sequence back. The
  scan never assigns \<open>found_esc\<close> again after the first ESC byte, so every later byte
  loses bit 7: the two bytes \<open>02 80\<close> are escaped to \<open>1B 82 80\<close> and come back as
  \<open>02 00\<close>.
\<close>

theorem round_trip_lost_after_first_escape:
  "escape_control_chars [0x02, 0x80] = [0x1b, 0x82, 0x80]
   \<and> remove_escape_sequences (escape_control_chars [0x02, 0x80]) = [0x02, 0x00]
   \<and> remove_escape_sequences (escape_control_chars [0x02, 0x80]) \<noteq> [0x02, 0x80]"
  by (simp add: codec_defs)

text \<open>
  C3. The specification has an input that ends with an ESC byte rejected. The scan has
  no failing branch: the two bytes \<open>41 1B\<close> are unescaped to the one byte \<open>41\<close>.
\<close>

theorem trailing_esc_returns_a_result: "remove_escape_sequences [0x41, 0x1b] = [0x41]"
  by (simp add: codec_defs)

text \<open>
  C3, what the scan does: a final ESC byte with no byte after it is dropped, and the
  result is that of the input without it.
\<close>

theorem trailing_esc_dropped:
  "remove_escape_sequences (packet @ [ESC CONTROL_CHARS]) = remove_escape_sequences packet"
  by (simp add: remove_escape_sequences_def unescape_step_def)

text \<open>
  C7. A single control character \<open>b\<close> is escaped to ESC followed by \<open>b\<close> with bit 7
  set; any other single byte is left as it is.
\<close>

theorem escape_single_byte:
  "(b \<in> {0x02, 0x03, 0x06, 0x15, 0x1b} \<longrightarrow> escape_control_chars [b] = [0x1b, b OR 0x80])
   \<and> (b \<notin> {0x02, 0x03, 0x06, 0x15, 0x1b} \<longrightarrow> escape_control_chars [b] = [b])"
  by (simp add: codec_defs)

theorem escape_single_byte_witness:
  "(0x15 :: byte) \<in> {0x02, 0x03, 0x06, 0x15, 0x1b}
   \<and> escape_control_chars [0x15] = [0x1b, 0x95]
   \<and> (0x41 :: byte) \<notin> {0x02, 0x03, 0x06, 0x15, 0x1b}
   \<and> escape_control_chars [0x41] = [0x41]"
  using escape_single_byte [of "0x15"] escape_single_byte [of "0x41"] by simp

subsection \<open>Checksum and integers\<close>

lemma fold_xor_acc:
  "fold (\<lambda>byte lrc. lrc XOR byte) xs acc = acc XOR xor_fold xs"
  by (induction xs arbitrary: acc) (simp_all add: xor.assoc)

lemma xor_fold_append: "xor_fold (xs @ ys) = xor_fold xs XOR xor_fold ys"
  by (induction xs) (simp_all add: xor.assoc)

lemma xor_fold_mset:
  assumes "mset xs = mset ys"
  shows "xor_fold xs = xor_fold ys"
proof -
  from assms
  have "fold (\<lambda>byte lrc. lrc XOR byte) xs (0::byte) = fold (\<lambda>byte lrc. lrc XOR byte) ys 0"
    by (rule fold_permuted_eq [where P = "\<lambda>_. True"])
       (auto simp: xor.assoc xor.left_commute xor.commute)
  then show ?thesis
    by (simp add: fold_xor_acc)
qed

text \<open>
  C8. The checksum is the exclusive or of all bytes of its input: the loop computes
  \<open>xor_fold\<close>, so one more byte in front is XORed to the checksum of the rest, and the
  checksum of a concatenation is the XOR of the two checksums. The checksum of the empty
  sequence is 0, that of one byte is the byte, that of two bytes is their XOR, and two
  sequences with the same bytes in any order have the same checksum.
\<close>

theorem compute_lrc_xor_fold:
  "compute_lrc xs = [xor_fold xs]
   \<and> compute_lrc [] = [0]
   \<and> compute_lrc [a] = [a]
   \<and> compute_lrc [a, b] = [a XOR b]
   \<and> (\<exists>v. compute_lrc xs = [v] \<and> compute_lrc (a # xs) = [a XOR v])
   \<and> (\<exists>v w. compute_lrc xs = [v] \<and> compute_lrc ys = [w]
              \<and> compute_lrc (xs @ ys) = [v XOR w])
   \<and> (mset xs = mset ys \<longrightarrow> compute_lrc xs = compute_lrc ys)"
  using xor_fold_mset [of xs ys]
  by (simp add: compute_lrc_def fold_xor_acc xor_fold_append)

theorem compute_lrc_xor_fold_witness:
  "mset [0x34, 0x64, 0x07 :: byte] = mset [0x07, 0x34, 0x64]
   \<and> compute_lrc [0x34, 0x64, 0x07] = compute_lrc [0x07, 0x34, 0x64]
   \<and> compute_lrc [0x34, 0x64] = [0x50]"
proof -
  have h: "mset [0x34, 0x64, 0x07 :: byte] = mset [0x07, 0x34, 0x64]"
    by (simp add: add_mset_commute)
  note compute_lrc_xor_fold [where xs = "[0x34, 0x64, 0x07]" and ys = "[0x07, 0x34, 0x64]"
      and a = "0x34" and b = "0x64"]
  then have "compute_lrc [0x34, 0x64] = [0x34 XOR 0x64]"
    and "mset [0x34, 0x64, 0x07 :: byte] = mset [0x07, 0x34, 0x64]
         \<longrightarrow> compute_lrc [0x34, 0x64, 0x07] = compute_lrc [0x07, 0x34, 0x64]"
    by blast+
  with h show ?thesis by simp
qed

text \<open>
  C10. Every integer of the signed 16-bit range is encoded to two bytes that decode to
  the same integer.
\<close>

theorem int_round_trip:
  assumes "- 32768 \<le> v \<and> v \<le> 32767"
  shows "\<exists>two_bytes. int_to_bytes v = Inr two_bytes \<and> bytes_to_int two_bytes = Inr v"
proof -
  let ?u = "uint (word_of_int (v mod 256) :: byte)
              + 256 * uint (word_of_int (v div 256 mod 256) :: byte)"
  have u: "?u = v mod 65536"
    by (simp only: uint_byte_mod two_bytes_value)
  have "(if ?u < 32768 then ?u else ?u - 65536) = v"
  proof (cases "0 \<le> v")
    case True
    with assms have "v mod 65536 = v" by simp
    with u assms show ?thesis by simp
  next
    case False
    with assms have "v mod 65536 = v + 65536"
      by (simp add: negative_mod_65536)
    with u assms show ?thesis by simp
  qed
  with assms show ?thesis
    by (simp add: int_to_bytes_def bytes_to_int_def Let_def)
qed

theorem int_round_trip_witness:
  "- 32768 \<le> (- 300 :: int) \<and> (- 300 :: int) \<le> 32767
   \<and> (\<exists>two_bytes. int_to_bytes (- 300) = Inr two_bytes
                     \<and> bytes_to_int two_bytes = Inr (- 300))"
  using int_round_trip [of "- 300"] by simp

subsection \<open>Assembling packets\<close>

text \<open>
  C5. The PTHR90 packet of \<open>home\<close> is \<open>02 35 35 03\<close>: the command number, no data, the
  checksum of the command number alone, nothing escaped, between STX and ETX.
\<close>

theorem home_frame_unaddressed:
  "assemble_packet PTHR90 ''home'' [] = ([], Inr [0x02, 0x35, 0x35, 0x03])
   \<and> assemble_home [] = ([], Inr None)
   \<and> compute_lrc [0x35] = [0x35]
   \<and> escape_control_chars [0x35, 0x35] = [0x35, 0x35]"
  by (simp add: packet_defs codec_defs assemble_home_def)

text \<open>
  C9. A name that is not in the command table makes \<open>assemble_packet\<close> of either
  variant raise the error that carries the name, whatever the arguments are and with
  no warning issued: no assembler has run.
\<close>

theorem unknown_command_rejected:
  "cmd_name \<notin> COMMAND_NAMES \<Longrightarrow>
     assemble_packet proto cmd_name data =
       ([], Inl (NotImplementedError (not_implemented_message cmd_name)))"
  by (cases proto) (simp_all add: assemble_packet_def assemble_cmd_data_lrc_def)

theorem unknown_command_rejected_witness:
  "''nonexistent'' \<notin> COMMAND_NAMES
   \<and> assemble_packet (PTCR20 0) ''nonexistent'' [PyInt 200] =
       ([], Inl (NotImplementedError (not_implemented_message ''nonexistent'')))"
proof -
  have h: "''nonexistent'' \<notin> COMMAND_NAMES"
    by (simp add: COMMAND_NAMES_def COMMANDS_def)
  from h unknown_command_rejected [OF h, of "PTCR20 0" "[PyInt 200]"]
  show ?thesis by simp
qed

text \<open>
  C4. When command, data and checksum have been assembled, the PTCR20 body that is
  escaped is the PTHR90 body with the identity byte in front of the command number. The
  checksum is the one of command number and data: the identity is not part of it. The
  packets are STX, the escaped body, ETX.
\<close>

theorem identity_inserted_after_checksum:
  assumes "0 \<le> ident \<and> ident < 256"
    and "assemble_cmd_data_lrc cmd_name data = (warned, Inr packet)"
  shows "(\<exists>entry data_bytes. map_of COMMANDS cmd_name = Some entry \<and>
           packet = (word_of_int (number entry) # data_bytes)
                      @ compute_lrc (word_of_int (number entry) # data_bytes))
    \<and> pre_escape_body PTHR90 cmd_name data = (warned, Inr packet)
    \<and> pre_escape_body (PTCR20 ident) cmd_name data
        = (warned, Inr (word_of_int ident # packet))
    \<and> assemble_packet PTHR90 cmd_name data =
        (warned, Inr (STX CONTROL_CHARS # escape_control_chars packet
                        @ [ETX CONTROL_CHARS]))
    \<and> assemble_packet (PTCR20 ident) cmd_name data =
        (warned, Inr (STX CONTROL_CHARS # escape_control_chars (word_of_int ident # packet)
                        @ [ETX CONTROL_CHARS]))"
  using assms cmd_data_lrc_shape [OF assms(2)]
  by (simp add: assemble_packet_def insert_front_def)

theorem identity_inserted_after_checksum_witness:
  "(0::int) \<le> 5 \<and> (5::int) < 256
   \<and> assemble_cmd_data_lrc ''home'' [] = ([], Inr [0x35, 0x35])
   \<and> pre_escape_body PTHR90 ''home'' [] = ([], Inr [0x35, 0x35])
   \<and> pre_escape_body (PTCR20 5) ''home'' [] = ([], Inr [0x05, 0x35, 0x35])"
  using identity_inserted_after_checksum [of 5 "''home''" "[]" "[]" "[0x35, 0x35]"]
    home_cmd_data_lrc
  by simp

subsection \<open>The timeout command\<close>

text \<open>
  C2. The specification has a timeout of 200 make \<open>assemble_packet\<close> fail. The call
  returns a packet, after one warning: the command number, its checksum and no data.
\<close>

theorem set_comm_timeout_200_assembles:
  "assemble_packet PTHR90 ''set_comm_timeout'' [PyInt 200] =
     ([timeout_warning], Inr [0x02, 0x96, 0x96, 0x03])"
  by (simp add: packet_defs codec_defs)

text \<open>
  C2, what the assembler does: for an integer timeout below 0 or above 120 the assembler of
  \<open>set_comm_timeout\<close> raises nothing; it issues the warning and returns \<open>None\<close>, and
  \<open>assemble_packet\<close> of either variant (with an identity in \<open>range(256)\<close>) returns with
  that warning rather than raising.
\<close>

theorem set_comm_timeout_out_of_range_warns:
  assumes "timeout < 0 \<or> 120 < timeout"
  shows "assemble_set_comm_timeout [PyInt timeout] = ([timeout_warning], Inr None)
    \<and> (\<exists>frame. assemble_packet PTHR90 ''set_comm_timeout'' [PyInt timeout]
                  = ([timeout_warning], Inr frame))
    \<and> (0 \<le> ident \<and> ident < 256 \<longrightarrow>
        (\<exists>frame. assemble_packet (PTCR20 ident) ''set_comm_timeout'' [PyInt timeout]
                  = ([timeout_warning], Inr frame)))"
  using assms
  by (auto simp: assemble_packet_def assemble_cmd_data_lrc_def COMMANDS_def
      COMMAND_NAMES_def to_bytes_def insert_front_def)

theorem set_comm_timeout_out_of_range_warns_witness:
  "((200::int) < 0 \<or> (120::int) < 200) \<and> (0::int) \<le> 5 \<and> (5::int) < 256
   \<and> assemble_set_comm_timeout [PyInt 200] = ([timeout_warning], Inr None)
   \<and> (\<exists>frame. assemble_packet (PTCR20 5) ''set_comm_timeout'' [PyInt 200]
                 = ([timeout_warning], Inr frame))"
  using set_comm_timeout_out_of_range_warns [of 200 5] by simp

subsection \<open>The move commands\<close>

lemma bit_length_le: "n < 2 ^ k \<Longrightarrow> bit_length n \<le> k"
proof (induction k arbitrary: n)
  case 0
  then show ?case by (simp add: bit_length.simps)
next
  case (Suc k)
  then have "n div 2 < 2 ^ k" by simp
  then have "bit_length (n div 2) \<le> k" by (rule Suc.IH)
  then show ?case by (subst bit_length.simps) simp
qed

text \<open>A value that already fits the format is not changed by rounding.\<close>

lemma round_binary64_exact:
  assumes "\<bar>m\<bar> < 2 ^ 53" "- 1074 \<le> e" "e \<le> 971"
  shows "round_binary64 m e = Finite m e"
proof -
  have "nat \<bar>m\<bar> < 2 ^ 53"
    using assms(1) by (simp add: nat_less_iff)
  then have bl: "bit_length (nat \<bar>m\<bar>) \<le> 53"
    by (rule bit_length_le)
  then have sh: "nat (max (int (bit_length (nat \<bar>m\<bar>)) - 53) (- 1074 - e)) = 0"
    using assms(2) by simp
  have "sgn m * \<bar>m\<bar> = m"
    by (simp add: sgn_if)
  moreover have "\<not> int (bit_length (nat \<bar>m\<bar>)) + e > 1024"
    using bl assms(3) by simp
  ultimately show ?thesis
    unfolding round_binary64_def Let_def sh by simp
qed

lemma truncate_dyadic:
  "truncate (dyadic k e) =
     (if 0 \<le> e then k * 2 ^ nat e else sgn k * (\<bar>k\<bar> div 2 ^ nat (- e)))"
proof (cases "0 \<le> e")
  case True
  then have "dyadic k e = of_int (k * 2 ^ nat e)"
    by (simp add: dyadic_def)
  then show ?thesis
    using True by (simp add: truncate_def del: of_int_mult of_int_power)
next
  case False
  let ?d = "2 ^ nat (- e) :: int"
  have d: "0 < ?d" by simp
  have x: "dyadic k e = of_int k / of_int ?d"
    using False by (simp add: dyadic_def)
  show ?thesis
  proof (cases "0 \<le> k")
    case True
    then have "0 \<le> dyadic k e"
      unfolding x by simp
    then have "truncate (dyadic k e) = k div ?d"
      unfolding truncate_def x by (simp add: floor_divide_of_int_eq del: of_int_power)
    moreover have "sgn k * (\<bar>k\<bar> div ?d) = k div ?d"
      using True by (cases "k = 0") (simp_all add: sgn_if)
    ultimately show ?thesis
      using False by simp
  next
    case neg: False
    then have "dyadic k e < 0"
      unfolding x using d by (simp add: divide_neg_pos del: of_int_power)
    then have "truncate (dyadic k e) = \<lceil>of_int k / of_int ?d :: real\<rceil>"
      unfolding truncate_def x by simp
    also have "\<dots> = - \<lfloor>of_int (- k) / of_int ?d :: real\<rfloor>"
      by (simp add: ceiling_def del: of_int_power)
    also have "\<dots> = - ((- k) div ?d)"
      by (simp only: floor_divide_of_int_eq)
    also have "\<dots> = sgn k * (\<bar>k\<bar> div ?d)"
      using neg by (simp add: sgn_if)
    finally show ?thesis
      using False by simp
  qed
qed

lemma ten_times_dyadic: "10 * dyadic m e = dyadic (m * 10) e"
  by (simp add: dyadic_def)

lemma int_times_10_exact:
  assumes "\<bar>10 * m\<bar> < 2 ^ 53" "- 1074 \<le> e" "e \<le> 971"
  shows "int_times_10 (PyFloat (Finite m e)) = Inr (truncate (10 * dyadic m e))"
proof -
  have "round_binary64 (m * 10) e = Finite (m * 10) e"
    using assms by (intro round_binary64_exact) (simp_all add: mult.commute)
  then show ?thesis
    by (simp add: ten_times_dyadic truncate_dyadic)
qed

lemma ten_degrees_times_10: "int_times_10 (PyFloat (Finite 5 1)) = Inr 100"
  using int_times_10_exact [of 5 1] by (simp add: dyadic_def truncate_def)

lemma ten_degrees_data_bytes:
  "assemble_move_to_delta [PyFloat (Finite 5 1), PyNone] = ([], Inr (Some [0x64, 0, 0, 0]))"
  by (simp add: assemble_move_to_delta_def encode_pan_tilt_def ten_degrees_times_10
      int_to_bytes_def del: int_times_10.simps(2))

text \<open>The float 0.3 is \<open>5404319552844595 * 2 ^ - 54\<close>; its product with 10 rounds to 3.\<close>

lemma bit_length_three_tenths_product: "bit_length 54043195528445950 = 56"
  by (simp add: bit_length.simps)

lemma bit_length_three: "bit_length 6755399441055744 = 53"
  by (simp add: bit_length.simps)

lemma three_tenths_times_10:
  "float_mul (Finite 5404319552844595 (- 54)) (Finite 10 0) = Finite 6755399441055744 (- 51)"
  by (simp add: round_binary64_def bit_length_three_tenths_product bit_length_three)

lemma bit_length_ten: "bit_length 10 = 4"
  by (simp add: bit_length.simps)

lemma huge_times_10: "float_mul (Finite 1 1023) (Finite 10 0) = Infinity False"
  by (simp add: round_binary64_def bit_length_ten)

text \<open>
  C6. \<open>move_delta\<close> with a pan of 10.0 degrees (the float \<open>5 * 2 ^ 1\<close>) and no tilt:
  the data bytes are \<open>64 00 00 00\<close>, pan first, and the bytes under the checksum
  \<open>34 64 00 00 00\<close> have the checksum \<open>50\<close>, which is \<open>34 XOR 64\<close>. An absent axis
  of \<open>move_delta\<close> is the integer 0. Every number of degrees is multiplied by 10 and the
  product is truncated towards zero: an integer gives ten times itself; a float gives
  its float product with 10.0, truncated (an infinite product raises \<open>OverflowError\<close>, a
  NaN raises \<open>ValueError\<close>). The data bytes are the two bytes of the pan value followed
  by those of the tilt value.
\<close>

theorem move_delta_ten_degrees:
  "dyadic 5 1 = 10
   \<and> assemble_move_to_delta [PyFloat (Finite 5 1), PyNone]
       = ([], Inr (Some [0x64, 0x00, 0x00, 0x00]))
   \<and> assemble_move_to_delta [PyFloat (Finite 5 1)]
       = ([], Inr (Some [0x64, 0x00, 0x00, 0x00]))
   \<and> assemble_cmd_data_lrc ''move_delta'' [PyFloat (Finite 5 1), PyNone]
       = ([], Inr ([0x34, 0x64, 0x00, 0x00, 0x00] @ [0x50]))
   \<and> compute_lrc [0x34, 0x64, 0x00, 0x00, 0x00] = [0x34 XOR 0x64]
   \<and> (0x34 XOR 0x64 = (0x50 :: byte))
   \<and> assemble_move_to_delta [pan, PyNone] = assemble_move_to_delta [pan, PyInt 0]
   \<and> assemble_move_to_delta [PyNone, tilt] = assemble_move_to_delta [PyInt 0, tilt]
   \<and> assemble_move_to_delta [pan] = assemble_move_to_delta [pan, PyInt 0]
   \<and> assemble_move_to_delta [] = assemble_move_to_delta [PyInt 0, PyInt 0]
   \<and> int_times_10 (PyInt n) = Inr (10 * n)
   \<and> (float_mul x (Finite 10 0) = Finite m e \<longrightarrow>
        int_times_10 (PyFloat x) = Inr (truncate (dyadic m e)))
   \<and> (float_mul x (Finite 10 0) = Infinity neg \<longrightarrow>
        int_times_10 (PyFloat x) = Inl OverflowError)
   \<and> (float_mul x (Finite 10 0) = NaN \<longrightarrow> int_times_10 (PyFloat x) = Inl ValueError)
   \<and> (int_times_10 pan = Inr p \<and> int_times_10 tilt = Inr t
        \<and> int_to_bytes p = Inr pan_bytes \<and> int_to_bytes t = Inr tilt_bytes \<longrightarrow>
        assemble_move_to_delta [pan, tilt] = ([], Inr (Some (pan_bytes @ tilt_bytes))))"
proof -
  have ten: "dyadic 5 1 = 10"
    by (simp add: dyadic_def)
  have one: "assemble_move_to_delta [PyFloat (Finite 5 1)]
          = ([], Inr (Some [0x64, 0x00, 0x00, 0x00]))"
    using ten_degrees_data_bytes by (simp add: assemble_move_to_delta_def)
  have packet: "assemble_cmd_data_lrc ''move_delta'' [PyFloat (Finite 5 1), PyNone]
       = ([], Inr ([0x34, 0x64, 0x00, 0x00, 0x00] @ [0x50]))"
    by (simp add: packet_defs ten_degrees_data_bytes)
  have lrc: "compute_lrc [0x34, 0x64, 0x00, 0x00, 0x00] = [0x34 XOR 0x64]"
    by (simp add: compute_lrc_def)
  have absent: "assemble_move_to_delta [pan, PyNone] = assemble_move_to_delta [pan, PyInt 0]
      \<and> assemble_move_to_delta [PyNone, tilt] = assemble_move_to_delta [PyInt 0, tilt]
      \<and> assemble_move_to_delta [pan] = assemble_move_to_delta [pan, PyInt 0]
      \<and> assemble_move_to_delta [] = assemble_move_to_delta [PyInt 0, PyInt 0]"
    by (simp add: assemble_move_to_delta_def encode_pan_tilt_def)
  have floats: "(float_mul x (Finite 10 0) = Finite m e \<longrightarrow>
        int_times_10 (PyFloat x) = Inr (truncate (dyadic m e)))
     \<and> (float_mul x (Finite 10 0) = Infinity neg \<longrightarrow>
        int_times_10 (PyFloat x) = Inl OverflowError)
     \<and> (float_mul x (Finite 10 0) = NaN \<longrightarrow> int_times_10 (PyFloat x) = Inl ValueError)"
    by (simp add: truncate_dyadic)
  have bytes: "int_times_10 pan = Inr p \<and> int_times_10 tilt = Inr t
        \<and> int_to_bytes p = Inr pan_bytes \<and> int_to_bytes t = Inr tilt_bytes \<longrightarrow>
        assemble_move_to_delta [pan, tilt] = ([], Inr (Some (pan_bytes @ tilt_bytes)))"
    by (cases pan; cases tilt)
       (auto simp: assemble_move_to_delta_def encode_pan_tilt_def)
  have ints: "int_times_10 (PyInt n) = Inr (10 * n)"
    by simp
  have x: "0x34 XOR 0x64 = (0x50 :: byte)"
    by simp
  from ten ten_degrees_data_bytes one packet lrc x absent ints floats bytes
  show ?thesis by blast
qed

theorem move_delta_ten_degrees_witness:
  "float_mul (Finite 5404319552844595 (- 54)) (Finite 10 0) = Finite 6755399441055744 (- 51)
   \<and> int_times_10 (PyFloat (Finite 5404319552844595 (- 54))) = Inr 3
   \<and> float_mul (Finite 1 1023) (Finite 10 0) = Infinity False
   \<and> int_times_10 (PyFloat (Finite 1 1023)) = Inl OverflowError
   \<and> float_mul NaN (Finite 10 0) = NaN
   \<and> int_times_10 (PyFloat NaN) = Inl ValueError
   \<and> int_times_10 (PyInt 1) = Inr 10 \<and> int_times_10 (PyInt (- 1)) = Inr (- 10)
   \<and> int_to_bytes 10 = Inr [0x0a, 0x00] \<and> int_to_bytes (- 10) = Inr [0xf6, 0xff]
   \<and> assemble_move_to_delta [PyInt 1, PyInt (- 1)]
       = ([], Inr (Some [0x0a, 0x00, 0xf6, 0xff]))"
proof -
  have three: "int_times_10 (PyFloat (Finite 5404319552844595 (- 54)))
                 = Inr (truncate (dyadic 6755399441055744 (- 51)))"
    using move_delta_ten_degrees [where x = "Finite 5404319552844595 (- 54)"
        and m = 6755399441055744 and e = "- 51"] three_tenths_times_10
    by blast
  have "truncate (dyadic 6755399441055744 (- 51)) = 3"
    by (simp add: truncate_dyadic)
  with three have a: "int_times_10 (PyFloat (Finite 5404319552844595 (- 54))) = Inr 3"
    by simp
  have b: "int_times_10 (PyFloat (Finite 1 1023)) = Inl OverflowError"
    using move_delta_ten_degrees [where x = "Finite 1 1023" and neg = False] huge_times_10
    by blast
  have nan: "float_mul NaN (Finite 10 0) = NaN"
    by simp
  have c: "int_times_10 (PyFloat NaN) = Inl ValueError"
    using move_delta_ten_degrees [where x = NaN] nan by blast
  have p: "int_times_10 (PyInt 1) = Inr 10" and t: "int_times_10 (PyInt (- 1)) = Inr (- 10)"
    by simp_all
  have pb: "int_to_bytes 10 = Inr [0x0a, 0x00]"
    and tb: "int_to_bytes (- 10) = Inr [0xf6, 0xff]"
    by (simp_all add: int_to_bytes_def)
  have d: "assemble_move_to_delta [PyInt 1, PyInt (- 1)]
             = ([], Inr (Some ([0x0a, 0x00] @ [0xf6, 0xff])))"
    using move_delta_ten_degrees [where pan = "PyInt 1" and tilt = "PyInt (- 1)"
        and p = 10 and t = "- 10" and pan_bytes = "[0x0a, 0x00]"
        and tilt_bytes = "[0xf6, 0xff]"] p t pb tb
    by blast
  from a b c d p t pb tb nan three_tenths_times_10 huge_times_10
  show ?thesis by simp
qed

subsection \<open>What unescaping an escaped sequence returns\<close>

lemma escape_fold_acc: "fold escape_step xs acc = acc @ fold escape_step xs []"
proof (induction xs arbitrary: acc)
  case Nil
  show ?case by simp
next
  case (Cons x xs)
  show ?case
    using Cons.IH [of "escape_step x acc"] Cons.IH [of "escape_step x []"]
    by (simp add: escape_step_def)
qed

lemma escape_Cons:
  "escape_control_chars (b # xs) = escape_control_chars [b] @ escape_control_chars xs"
  using escape_fold_acc [of xs "escape_step b []"]
  by (simp add: escape_control_chars_def)

text \<open>Once \<open>found_esc\<close> is true it stays true, and every byte comes back without bit 7.\<close>

lemma unescape_flag_set:
  assumes "found_esc s"
  shows "found_esc (fold unescape_step (escape_control_chars xs) s)
    \<and> new_packet (fold unescape_step (escape_control_chars xs) s)
       = new_packet s @ map (\<lambda>b. b AND 0x7f) xs"
  using assms
proof (induction xs arbitrary: s)
  case Nil
  then show ?case by (simp add: escape_control_chars_def)
next
  case (Cons b xs)
  let ?s' = "fold unescape_step (escape_control_chars [b]) s"
  have step: "found_esc ?s' \<and> new_packet ?s' = new_packet s @ [b AND 0x7f]"
  proof (cases "b \<in> set (tuple_items CONTROL_CHARS)")
    case True
    then have "b = 0x02 \<or> b = 0x03 \<or> b = 0x06 \<or> b = 0x15 \<or> b = 0x1b"
      by (simp add: tuple_items_def CONTROL_CHARS_def)
    then show ?thesis
      using Cons.prems by (elim disjE) (simp_all add: codec_defs)
  next
    case False
    then show ?thesis
      using Cons.prems by (simp add: codec_defs)
  qed
  show ?case
    using Cons.IH [of ?s'] step by (simp add: escape_Cons [of b xs])
qed

lemma unescape_flag_clear:
  assumes "\<not> found_esc s"
  shows "new_packet (fold unescape_step (escape_control_chars xs) s)
       = new_packet s @ takeWhile (\<lambda>b. b \<notin> set (tuple_items CONTROL_CHARS)) xs
          @ map (\<lambda>b. b AND 0x7f)
              (dropWhile (\<lambda>b. b \<notin> set (tuple_items CONTROL_CHARS)) xs)"
  using assms
proof (induction xs arbitrary: s)
  case Nil
  then show ?case by (simp add: escape_control_chars_def)
next
  case (Cons b xs)
  show ?case
  proof (cases "b \<in> set (tuple_items CONTROL_CHARS)")
    case True
    have "found_esc (s\<lparr>found_esc := True\<rparr>)" by simp
    from unescape_flag_set [OF this, of "b # xs"] True
    have "new_packet (fold unescape_step (escape_control_chars (b # xs))
                        (s\<lparr>found_esc := True\<rparr>))
            = new_packet s @ map (\<lambda>b. b AND 0x7f) (b # xs)"
      by simp
    moreover have "fold unescape_step (escape_control_chars (b # xs)) (s\<lparr>found_esc := True\<rparr>)
      = fold unescape_step (escape_control_chars (b # xs)) s"
      using True by (simp add: escape_Cons [of b xs]) (simp add: codec_defs)
    ultimately show ?thesis
      using True by simp
  next
    case False
    let ?s' = "s\<lparr>new_packet := new_packet s @ [b]\<rparr>"
    have s': "fold unescape_step (escape_control_chars [b]) s = ?s'"
      using False Cons.prems by (simp add: codec_defs)
    have "\<not> found_esc ?s'"
      using Cons.prems by simp
    from Cons.IH [OF this] s' False show ?thesis
      by (simp add: escape_Cons [of b xs])
  qed
qed

text \<open>
  The bytes before the first control character come back unchanged; that character and
  all bytes after it come back with bit 7 cleared.
\<close>

lemma unescape_of_escape:
  "remove_escape_sequences (escape_control_chars x) =
     takeWhile (\<lambda>b. b \<notin> set (tuple_items CONTROL_CHARS)) x
       @ map (\<lambda>b. b AND 0x7f)
           (dropWhile (\<lambda>b. b \<notin> set (tuple_items CONTROL_CHARS)) x)"
  using unescape_flag_clear [of "\<lparr>new_packet = [], found_esc = False, found_sec = None\<rparr>" x]
  by (simp add: remove_escape_sequences_def)

end
